theory Spec2Isabelle
  imports Complex_Main "HOL-Library.Multiset" "HOL-Library.Char_ord" "HOL-Library.List_Lexorder"
begin

section \<open>Strings\<close>

text \<open>
  Strings are modelled as ASCII strings, one \<^typ>\<open>char\<close> per UTF-16 code unit of the
  source's strings. Tail numbers, callsigns, airline codes and type designators are ASCII
  in the data the tool reads; the case mappings below are the ASCII part of
  \<^verbatim>\<open>String.prototype.toUpperCase\<close> and \<^verbatim>\<open>toLowerCase\<close>, and leave every other
  character as it is.
\<close>

definition alphabet :: string where
  "alphabet = ''ABCDEFGHIJKLMNOPQRSTUVWXYZ''"

definition digits :: string where
  "digits = ''1234567890''"

definition lowercase :: string where
  "lowercase = ''abcdefghijklmnopqrstuvwxyz''"

text \<open>The character classes \<^verbatim>\<open>\d\<close>, \<^verbatim>\<open>[A-Z]\<close> and \<^verbatim>\<open>[a-z]\<close> of the regular expressions.\<close>

definition is_digit :: "char \<Rightarrow> bool" where
  "is_digit c = (c \<in> set ''0123456789'')"

definition is_AZ :: "char \<Rightarrow> bool" where
  "is_AZ c = (c \<in> set ''ABCDEFGHIJKLMNOPQRSTUVWXYZ'')"

definition is_az :: "char \<Rightarrow> bool" where
  "is_az c = (c \<in> set ''abcdefghijklmnopqrstuvwxyz'')"

definition upper_char :: "char \<Rightarrow> char" where
  "upper_char c = (case map_of (zip lowercase alphabet) c of Some u \<Rightarrow> u | None \<Rightarrow> c)"

definition lower_char :: "char \<Rightarrow> char" where
  "lower_char c = (case map_of (zip alphabet lowercase) c of Some u \<Rightarrow> u | None \<Rightarrow> c)"

definition toUpperCase :: "string \<Rightarrow> string" where
  "toUpperCase s = map upper_char s"

definition toLowerCase :: "string \<Rightarrow> string" where
  "toLowerCase s = map lower_char s"

text \<open>\<^verbatim>\<open>s.startsWith(p)\<close>, \<^verbatim>\<open>s.endsWith("-")\<close> and \<^verbatim>\<open>s.includes("-")\<close>.\<close>

definition startsWith :: "string \<Rightarrow> string \<Rightarrow> bool" where
  "startsWith s p = (take (length p) s = p)"

definition endsWithDash :: "string \<Rightarrow> bool" where
  "endsWithDash s = (s \<noteq> [] \<and> last s = CHR ''-'')"

definition includesDash :: "string \<Rightarrow> bool" where
  "includesDash s = (CHR ''-'' \<in> set s)"

text \<open>
  \<^verbatim>\<open>s.replace("-", "")\<close>: with a string pattern, \<^verbatim>\<open>replace\<close> rewrites the first
  occurrence only.
\<close>

definition replaceDash :: "string \<Rightarrow> string" where
  "replaceDash s = remove1 (CHR ''-'') s"

text \<open>
  \<^verbatim>\<open>s.indexOf("-")\<close>, used by the source only on a string that includes a dash: the
  number of characters before the first dash.
\<close>

definition indexOfDash :: "string \<Rightarrow> nat" where
  "indexOfDash s = length (takeWhile (\<lambda>c. c \<noteq> CHR ''-'') s)"

text \<open>\<^verbatim>\<open>xs.join(sep)\<close>.\<close>

fun join :: "string \<Rightarrow> string list \<Rightarrow> string" where
  "join sep [] = []"
| "join sep [x] = x"
| "join sep (x # y # ys) = x @ sep @ join sep (y # ys)"

section \<open>Callsign synthesis (\<^verbatim>\<open>tailToCallsign\<close>, cli.ts)\<close>

text \<open>
  The \<^verbatim>\<open>map\<close> callback over the characters of the uppercased local part. The two
  cursors \<^verbatim>\<open>indices.letter\<close> and \<^verbatim>\<open>indices.number\<close> are the arguments \<open>l\<close> and \<open>n\<close>.
\<close>

fun translit :: "nat \<Rightarrow> nat \<Rightarrow> string \<Rightarrow> string" where
  "translit l n [] = []"
| "translit l n (c # cs) =
     (if is_digit c then (digits ! (n mod length digits)) # translit l (Suc n) cs
      else if is_AZ c then (alphabet ! (l mod length alphabet)) # translit (Suc l) n cs
      else c # translit l n cs)"

definition localPartFormat :: "string \<Rightarrow> string" where
  "localPartFormat sample = translit 0 0 (toUpperCase sample)"

definition tailToCallsign :: "string \<Rightarrow> string \<Rightarrow> string" where
  "tailToCallsign prefix sample = toUpperCase prefix @ ''-'' @ localPartFormat sample"

text \<open>The three character classes the transliteration distinguishes.\<close>

datatype char_class = Digit | Letter | Other

definition class_of :: "char \<Rightarrow> char_class" where
  "class_of c = (if is_digit c then Digit else if is_AZ c then Letter else Other)"

section \<open>Geodesy (\<^verbatim>\<open>Direction.fromBearing\<close>, api.ts)\<close>

datatype Direction = N | E | S | W





definition direction_name :: "Direction \<Rightarrow> string" where
  "direction_name d = (case d of N \<Rightarrow> ''N'' | E \<Rightarrow> ''E'' | S \<Rightarrow> ''S'' | W \<Rightarrow> ''W'')"

section \<open>Flights\<close>

text \<open>
  \<^verbatim>\<open>flight.airline\<close> is a string or \<^verbatim>\<open>null\<close>; the aggregation loop also tests it
  against \<^verbatim>\<open>undefined\<close> (a record read from JSON without the field), so the model has
  the three states.
\<close>

datatype airline = Undefined | Null | Code string

datatype Bound = Arrival | Departure

record Location =
  name :: string
  lat :: real
  lon :: real

record Flight =
  flight_id :: int
  time :: int
  tail :: "string option"
  type :: string
  airline :: airline
  callsign :: "string option"
  to_loc :: Location
  from_loc :: Location
  bound :: "Bound option"

section \<open>Record normaliser (command \<^verbatim>\<open>gen\<close>, first loop)\<close>

text \<open>The test \<^verbatim>\<open>/^[A-Z]{3}\d[A-Z\d]{0,3}$/.test(callsign)\<close>.\<close>

definition is_airline_callsign :: "string \<Rightarrow> bool" where
  "is_airline_callsign c =
     (4 \<le> length c \<and> length c \<le> 7
      \<and> list_all is_AZ (take 3 c)
      \<and> is_digit (c ! 3)
      \<and> list_all (\<lambda>x. is_AZ x \<or> is_digit x) (drop 4 c))"

text \<open>The test \<^verbatim>\<open>/^[A-Z]{4,}/.test(s)\<close>.\<close>

definition starts_with_4_letters :: "string \<Rightarrow> bool" where
  "starts_with_4_letters s = (4 \<le> length s \<and> list_all is_AZ (take 4 s))"

text \<open>\<^verbatim>\<open>s.replace(/[^A-Z\d]/g, "")\<close>.\<close>

definition strip_non_alnum :: "string \<Rightarrow> string" where
  "strip_non_alnum s = filter (\<lambda>x. is_AZ x \<or> is_digit x) s"

text \<open>
  The comparison that opens the branch for regional registrations:
  \<^verbatim>\<open>tail.replace("-", "").toUpperCase() === callsign.replace("-", "").toUpperCase()\<close>.
\<close>

definition same_registration :: "string \<Rightarrow> string \<Rightarrow> bool" where
  "same_registration t c = (toUpperCase (replaceDash t) = toUpperCase (replaceDash c))"

text \<open>
  The path on which the loop body leaves a flight: the opening filter, the branch for
  regional registrations, the branch for airline callsigns, the branch for callsigns that
  start with four letters, or none of them.
\<close>

datatype branch = Filtered | Regional | AirlineCallsign | LongCallsign | Untouched

text \<open>
  The two branches on the callsign (the \<^verbatim>\<open>if\<close> / \<^verbatim>\<open>else if\<close> that ends the loop body).
  The result is the branch taken and the entry the collection holds for the flight
  afterwards: \<open>None\<close> after \<^verbatim>\<open>flights.delete(id)\<close>, the new flight after
  \<^verbatim>\<open>flights.set(id, ...)\<close>, the flight itself when nothing is done.
\<close>

definition callsign_rules :: "Flight \<Rightarrow> branch \<times> Flight option" where
  "callsign_rules flight =
     (case callsign flight of
        None \<Rightarrow> (Untouched, Some flight)
      | Some c \<Rightarrow>
          if airline flight = Code ''{PVT}'' \<or> airline flight = Null then
            (if \<not> is_airline_callsign c then (AirlineCallsign, None)
             else (AirlineCallsign, Some (flight\<lparr>airline := Code (take 3 c)\<rparr>)))
          else if starts_with_4_letters (toUpperCase c) then
            (LongCallsign,
             Some (flight\<lparr>airline := Code (strip_non_alnum (toUpperCase c) @ ''-'')\<rparr>))
          else (Untouched, Some flight))"

text \<open>
  The branch for regional registrations, entered when tail and callsign are both present
  and \<open>same_registration\<close> holds. \<open>prefixes\<close> is the list read from
  \<^verbatim>\<open>data/prefixes.json\<close>.
\<close>

definition regional :: "string list \<Rightarrow> Flight \<Rightarrow> string \<Rightarrow> branch \<times> Flight option" where
  "regional prefixes flight t =
     (if \<not> includesDash t then
        (case find (\<lambda>p. startsWith (toUpperCase t) p) prefixes of
           None \<Rightarrow> (Regional, None)
         | Some prefix \<Rightarrow>
             (Regional,
              Some (flight\<lparr>airline :=
                Code (tailToCallsign prefix (drop (length prefix) (toUpperCase t)))\<rparr>)))
      else
        (Regional,
         Some (flight\<lparr>airline :=
           Code (tailToCallsign (take (indexOfDash t) t) (drop (indexOfDash t + 1) t))\<rparr>)))"

text \<open>
  One iteration of the loop. \<open>helicopters\<close> is the set read from
  \<^verbatim>\<open>data/helicopters.json\<close>.
\<close>

definition normalise :: "string set \<Rightarrow> string list \<Rightarrow> Flight \<Rightarrow> branch \<times> Flight option" where
  "normalise helicopters prefixes flight =
     (if toUpperCase (type flight) \<in> helicopters
         \<or> (airline flight = Null \<and> callsign flight = None)
         \<or> (airline flight = Null \<and> tail flight = None)
      then (Filtered, None)
      else
        (case tail flight of
           None \<Rightarrow> callsign_rules flight
         | Some t \<Rightarrow>
             (case callsign flight of
                None \<Rightarrow> callsign_rules flight
              | Some c \<Rightarrow>
                  if same_registration t c then regional prefixes flight t
                  else callsign_rules flight)))"

text \<open>
  The whole loop over the collection, in insertion order. Every iteration touches the
  entry of its own flight only, and a replaced entry keeps its place.
\<close>

definition normalise_all :: "string set \<Rightarrow> string list \<Rightarrow> Flight list \<Rightarrow> Flight list" where
  "normalise_all helicopters prefixes flights =
     List.map_filter (\<lambda>flight. snd (normalise helicopters prefixes flight)) flights"

section \<open>Aggregator (command \<^verbatim>\<open>gen\<close>, second loop)\<close>

text \<open>
  An entry of \<^verbatim>\<open>merged\<close>. The two \<^verbatim>\<open>Set\<close>s are lists without duplicates in insertion
  order, which is the order \<^verbatim>\<open>Array.from\<close> reads them in. The score is \<^verbatim>\<open>NaN\<close> until the
  scoring loop assigns it: \<open>None\<close> stands for \<^verbatim>\<open>NaN\<close>. Scores are exact rationals (the
  source computes them in IEEE doubles).
\<close>

record Cluster =
  m_airline :: airline
  m_type :: "string list"
  m_direction :: "Direction list"
  m_flights :: "Flight list"
  m_score :: "rat option"
  m_pronunciation :: "string option"

text \<open>\<^verbatim>\<open>set.add(x)\<close>.\<close>

definition set_add :: "'a \<Rightarrow> 'a list \<Rightarrow> 'a list" where
  "set_add x xs = (if x \<in> set xs then xs else xs @ [x])"

text \<open>The table \<^verbatim>\<open>PHONETIC\<close> of api.ts.\<close>

definition PHONETIC :: "char \<Rightarrow> string option" where
  "PHONETIC = map_of
     [(CHR ''A'', ''Alpha''), (CHR ''B'', ''Bravo''), (CHR ''C'', ''Charlie''),
      (CHR ''D'', ''Delta''), (CHR ''E'', ''Echo''), (CHR ''F'', ''Foxtrot''),
      (CHR ''G'', ''Golf''), (CHR ''H'', ''Hotel''), (CHR ''I'', ''India''),
      (CHR ''J'', ''Juliet''), (CHR ''K'', ''Kilo''), (CHR ''L'', ''Lima''),
      (CHR ''M'', ''Mike''), (CHR ''N'', ''November''), (CHR ''O'', ''Oscar''),
      (CHR ''P'', ''Papa''), (CHR ''Q'', ''Quebec''), (CHR ''R'', ''Romeo''),
      (CHR ''S'', ''Sierra''), (CHR ''T'', ''Tango''), (CHR ''U'', ''Uniform''),
      (CHR ''V'', ''Victor''), (CHR ''W'', ''Whisky''), (CHR ''X'', ''X-Ray''),
      (CHR ''Y'', ''Yankee''), (CHR ''Z'', ''Zulu'')]"

text \<open>ASCII white space, \<^verbatim>\<open>s.trim()\<close> and \<^verbatim>\<open>s.replace(/\s+/g, " ")\<close>.\<close>

definition is_space :: "char \<Rightarrow> bool" where
  "is_space c = (c \<in> set [CHR '' '', CHR 0x09, CHR 0x0A, CHR 0x0B, CHR 0x0C, CHR 0x0D])"

definition trim :: "string \<Rightarrow> string" where
  "trim s = rev (dropWhile is_space (rev (dropWhile is_space s)))"

fun collapse_spaces :: "bool \<Rightarrow> string \<Rightarrow> string" where
  "collapse_spaces in_run [] = []"
| "collapse_spaces in_run (c # cs) =
     (if is_space c then
        (if in_run then collapse_spaces True cs else CHR '' '' # collapse_spaces True cs)
      else c # collapse_spaces False cs)"

text \<open>
  The pronunciation of a new entry. \<open>callsigns\<close> holds the entries of
  \<^verbatim>\<open>data/callsigns.json\<close> (an object, so its keys are distinct). The table
  \<^verbatim>\<open>NUMBERS\<close> belongs to a revision of api.ts that is not among the sources:
  \<open>spell_numbers\<close> stands for the loop of \<^verbatim>\<open>replaceAll\<close> over its entries.
  The loop calls this only for an airline that is not \<^verbatim>\<open>undefined\<close>.
\<close>

definition pronunciation_of ::
  "(string \<Rightarrow> string) \<Rightarrow> (string \<times> string) list \<Rightarrow> airline \<Rightarrow> string option" where
  "pronunciation_of spell_numbers callsigns a =
     (case a of
        Code s \<Rightarrow>
          if endsWithDash s then
            Some (toLowerCase (collapse_spaces False (trim (spell_numbers (butlast s)))))
          else if includesDash s then None
          else Some (case map_of callsigns (toUpperCase s) of
                       Some p \<Rightarrow> p
                     | None \<Rightarrow>
                         join '' '' (map (\<lambda>c. case PHONETIC c of Some w \<Rightarrow> w | None \<Rightarrow> [c])
                                         (toUpperCase s)))
      | _ \<Rightarrow> None)"

text \<open>The predicate of \<^verbatim>\<open>merged.find\<close>.\<close>

definition belongs :: "Cluster \<Rightarrow> Flight \<Rightarrow> Direction \<Rightarrow> bool" where
  "belongs m flight d =
     (m_airline m = airline flight \<and> type flight \<in> set (m_type m) \<and> d \<in> set (m_direction m))"

text \<open>
  The branch \<^verbatim>\<open>existing !== undefined\<close>: the first entry the flight belongs to is
  updated in place; \<open>None\<close> when \<^verbatim>\<open>find\<close> returns \<^verbatim>\<open>undefined\<close>.
\<close>

definition absorb :: "Cluster \<Rightarrow> Flight \<Rightarrow> Direction \<Rightarrow> Cluster" where
  "absorb m flight d =
     m\<lparr>m_flights := m_flights m @ [flight],
       m_type := set_add (type flight) (m_type m),
       m_direction := set_add d (m_direction m)\<rparr>"

fun add_to_existing :: "Flight \<Rightarrow> Direction \<Rightarrow> Cluster list \<Rightarrow> Cluster list option" where
  "add_to_existing flight d [] = None"
| "add_to_existing flight d (m # ms) =
     (if belongs m flight d then Some (absorb m flight d # ms)
      else map_option ((#) m) (add_to_existing flight d ms))"

definition new_cluster ::
  "(string \<Rightarrow> string) \<Rightarrow> (string \<times> string) list \<Rightarrow> Flight \<Rightarrow> Direction \<Rightarrow> Cluster" where
  "new_cluster spell_numbers callsigns flight d =
     \<lparr>m_airline = airline flight, m_type = [type flight], m_direction = [d],
      m_flights = [flight], m_score = None,
      m_pronunciation = pronunciation_of spell_numbers callsigns (airline flight)\<rparr>"

text \<open>
  One iteration of the grouping loop. \<open>direction\<close> is \<^verbatim>\<open>flight.direction()\<close>, a method
  of the revision of api.ts that is not among the sources; it yields one of the four
  values of \<^typ>\<open>Direction\<close>.
\<close>

definition aggregate_step ::
  "(Flight \<Rightarrow> Direction) \<Rightarrow> (string \<Rightarrow> string) \<Rightarrow> (string \<times> string) list
     \<Rightarrow> Cluster list \<Rightarrow> Flight \<Rightarrow> Cluster list" where
  "aggregate_step direction spell_numbers callsigns merged flight =
     (if airline flight = Undefined then merged
      else
        (case add_to_existing flight (direction flight) merged of
           Some merged' \<Rightarrow> merged'
         | None \<Rightarrow> merged @ [new_cluster spell_numbers callsigns flight (direction flight)]))"

definition aggregate ::
  "(Flight \<Rightarrow> Direction) \<Rightarrow> (string \<Rightarrow> string) \<Rightarrow> (string \<times> string) list
     \<Rightarrow> Flight list \<Rightarrow> Cluster list" where
  "aggregate direction spell_numbers callsigns flights =
     foldl (aggregate_step direction spell_numbers callsigns) [] flights"

section \<open>Scores, warnings and the listing\<close>

text \<open>
  \<^verbatim>\<open>Math.max(...merged.map(m => m.flights.length))\<close>. For an empty \<^verbatim>\<open>merged\<close> the source
  gets \<^verbatim>\<open>-Infinity\<close>, which nothing reads, as the scoring loop has no iteration then; the
  model has 0 there.
\<close>

definition maxFlights :: "Cluster list \<Rightarrow> nat" where
  "maxFlights merged = fold max (map (\<lambda>m. length (m_flights m)) merged) 0"

text \<open>
  \<^verbatim>\<open>Math.round((m.flights.length / maxFlights) * 1000) / 100\<close>; \<^verbatim>\<open>Math.round\<close> rounds a
  half up, as \<^const>\<open>round\<close> does.
\<close>

definition score_of :: "nat \<Rightarrow> nat \<Rightarrow> rat" where
  "score_of flightCount maxCount =
     of_int (round ((of_nat flightCount / of_nat maxCount) * 1000 :: rat)) / 100"

definition calculate_score :: "Cluster list \<Rightarrow> Cluster list" where
  "calculate_score merged =
     map (\<lambda>m. m\<lparr>m_score := Some (score_of (length (m_flights m)) (maxFlights merged))\<rparr>) merged"

text \<open>\<^verbatim>\<open>m.score >= x\<close>, false for \<^verbatim>\<open>NaN\<close>.\<close>

definition score_ge :: "Cluster \<Rightarrow> rat \<Rightarrow> bool" where
  "score_ge m x = (case m_score m of None \<Rightarrow> False | Some s \<Rightarrow> s \<ge> x)"

text \<open>\<^verbatim>\<open>m.airline?.endsWith("-")\<close>, which is \<^verbatim>\<open>undefined\<close> (falsy) for \<^verbatim>\<open>null\<close>.\<close>

definition airline_endsWithDash :: "airline \<Rightarrow> bool" where
  "airline_endsWithDash a = (case a of Code s \<Rightarrow> endsWithDash s | _ \<Rightarrow> False)"

text \<open>The condition of the warning, in the scoring loop of the current revision.\<close>

definition warns :: "(string \<times> string) list \<Rightarrow> Cluster \<Rightarrow> bool" where
  "warns callsigns m =
     (case m_pronunciation m of
        None \<Rightarrow> False
      | Some p \<Rightarrow>
          score_ge m (5 / 1000)
          \<and> \<not> airline_endsWithDash (m_airline m)
          \<and> p \<notin> set (map snd callsigns))"

text \<open>
  The same condition in the revision before it, which has
  \<^verbatim>\<open>m.score > 0 && m.score <= 0.005\<close> in the place of \<^verbatim>\<open>m.score >= 0.005\<close>.
\<close>

definition warns_prior :: "(string \<times> string) list \<Rightarrow> Cluster \<Rightarrow> bool" where
  "warns_prior callsigns m =
     (case m_pronunciation m of
        None \<Rightarrow> False
      | Some p \<Rightarrow>
          (case m_score m of None \<Rightarrow> False | Some s \<Rightarrow> s > 0 \<and> s \<le> 5 / 1000)
          \<and> \<not> airline_endsWithDash (m_airline m)
          \<and> p \<notin> set (map snd callsigns))"

text \<open>A value of \<^verbatim>\<open>airline\<close> inside a template or a string concatenation.\<close>

definition airline_text :: "airline \<Rightarrow> string" where
  "airline_text a = (case a of Code s \<Rightarrow> s | Null \<Rightarrow> ''null'' | Undefined \<Rightarrow> ''undefined'')"

definition warning_line :: "Cluster \<Rightarrow> string" where
  "warning_line m =
     ''WARNING! '' @ airline_text (m_airline m) @ '': no pronunciation available'' @ [CHR 0x0A]"

text \<open>What the scoring loop writes to \<^verbatim>\<open>process.stderr\<close>, one write per entry that warns.\<close>

definition warnings :: "(string \<times> string) list \<Rightarrow> Cluster list \<Rightarrow> string list" where
  "warnings callsigns merged = map warning_line (filter (warns callsigns) merged)"

text \<open>
  \<^verbatim>\<open>n.toFixed(2)\<close> for a score, which is never negative: the decimal digits of the
  integer part, a point and two digits.
\<close>

definition digit_char :: "nat \<Rightarrow> char" where
  "digit_char d = ''0123456789'' ! (d mod 10)"

fun decimal :: "nat \<Rightarrow> string" where
  "decimal n = (if n < 10 then [digit_char n] else decimal (n div 10) @ [digit_char n])"

definition toFixed2 :: "rat \<Rightarrow> string" where
  "toFixed2 x =
     (let r = nat (round (x * 100))
      in decimal (r div 100) @ ''.'' @ [digit_char (r div 10), digit_char r])"

definition score_text :: "rat option \<Rightarrow> string" where
  "score_text s = (case s of None \<Rightarrow> ''NaN'' | Some x \<Rightarrow> toFixed2 x)"

text \<open>
  \<^verbatim>\<open>a.localeCompare(b)\<close> orders strings by their collation keys; \<open>collate\<close> is the key
  of a string, in any linear order. \<^verbatim>\<open>Array.prototype.sort\<close> is stable, and so is
  \<^const>\<open>sort_key\<close>.
\<close>

definition entry_line :: "(string \<Rightarrow> 'k::linorder) \<Rightarrow> Cluster \<Rightarrow> string" where
  "entry_line collate entry =
     [CHR 0x09] @ airline_text (m_airline entry) @ '', ''
     @ score_text (m_score entry) @ '', ''
     @ toLowerCase (join ''/'' (sort_key collate (m_type entry))) @ '', ''
     @ (case m_pronunciation entry of None \<Rightarrow> ''0'' | Some p \<Rightarrow> p) @ '', ''
     @ toLowerCase
         (join [] (map direction_name
            (sort_key (\<lambda>d. collate (direction_name d)) (m_direction entry))))"

datatype error = TypeError

text \<open>The key of \<^verbatim>\<open>(a, b) => b.score - a.score\<close>: a larger score comes first.\<close>

definition by_score :: "Cluster \<Rightarrow> rat" where
  "by_score m = (case m_score m of None \<Rightarrow> 0 | Some s \<Rightarrow> - s)"

text \<open>
  The entries of the listing, in the order they are written: the filter and the two
  sorts. The comparator \<^verbatim>\<open>a.airline.localeCompare(b.airline)\<close> raises a
  \<^verbatim>\<open>TypeError\<close> when its receiver is \<^verbatim>\<open>null\<close>, and which entries the engine passes as
  receiver is its own choice. The model raises the error whenever an entry whose airline
  is not a string passes the filter; lemma \<open>coded_pipeline\<close> below shows that \<open>gen\<close> never
  has such an entry. No entry that passes the filter has the score \<^verbatim>\<open>NaN\<close>, so the
  value of \<open>by_score\<close> for \<^verbatim>\<open>NaN\<close> is never used.
\<close>

definition listed :: "(string \<Rightarrow> 'k::linorder) \<Rightarrow> Cluster list \<Rightarrow> error + Cluster list" where
  "listed collate merged =
     (let kept = filter (\<lambda>m. score_ge m (5 / 1000)) merged
      in if list_ex (\<lambda>m. case m_airline m of Code s \<Rightarrow> False | _ \<Rightarrow> True) kept
         then Inl TypeError
         else Inr (sort_key by_score
                     (sort_key (\<lambda>m. collate (airline_text (m_airline m))) kept)))"

text \<open>One line for each entry.\<close>

definition final_listing :: "(string \<Rightarrow> 'k::linorder) \<Rightarrow> Cluster list \<Rightarrow> error + string list" where
  "final_listing collate merged =
     (case listed collate merged of
        Inl e \<Rightarrow> Inl e
      | Inr entries \<Rightarrow> Inr (map (entry_line collate) entries))"

text \<open>
  The lines joined by a newline, with the closing newline: the text written to
  \<^verbatim>\<open>process.stdout\<close>.
\<close>

definition stdout_text :: "string list \<Rightarrow> string" where
  "stdout_text lines = join [CHR 0x0A] lines @ [CHR 0x0A]"

text \<open>
  The action of the command \<^verbatim>\<open>gen\<close> on the flights it has loaded: what it writes to
  \<^verbatim>\<open>process.stderr\<close> and to \<^verbatim>\<open>process.stdout\<close>.
\<close>

record Output =
  stderr :: "string list"
  stdout :: "error + string"

definition gen ::
  "string set \<Rightarrow> string list \<Rightarrow> (Flight \<Rightarrow> Direction) \<Rightarrow> (string \<Rightarrow> string)
     \<Rightarrow> (string \<times> string) list \<Rightarrow> (string \<Rightarrow> 'k::linorder) \<Rightarrow> Flight list \<Rightarrow> Output" where
  "gen helicopters prefixes direction spell_numbers callsigns collate flights =
     (let merged = calculate_score
                     (aggregate direction spell_numbers callsigns
                        (normalise_all helicopters prefixes flights))
      in \<lparr>stderr = warnings callsigns merged,
          stdout = map_sum (\<lambda>e. e) stdout_text (final_listing collate merged)\<rparr>)"

section \<open>Examples\<close>

text \<open>
  Parameters for the examples: every flight heads north, the digits of a synthesised
  airline code are left as they are, and strings are collated by their code units.
\<close>

definition all_north :: "Flight \<Rightarrow> Direction" where
  "all_north flight = N"

definition unspelled :: "string \<Rightarrow> string" where
  "unspelled s = s"

definition code_units :: "string \<Rightarrow> string" where
  "code_units s = s"



definition flight_lowercase :: Flight where
  "flight_lowercase =
     \<lparr>flight_id = 2, time = 0, tail = Some ''G-ABCD'', type = ''A320'', airline = Null,
      callsign = Some ''baw123'',
      to_loc = \<lparr>name = ''EGLL'', lat = 51, lon = 0\<rparr>,
      from_loc = \<lparr>name = ''EHAM'', lat = 52, lon = 4\<rparr>, bound = Some Arrival\<rparr>"

definition flight_airline_callsign :: Flight where
  "flight_airline_callsign =
     \<lparr>flight_id = 3, time = 0, tail = Some ''G-ABCD'', type = ''A320'', airline = Null,
      callsign = Some ''BAW123'',
      to_loc = \<lparr>name = ''EGLL'', lat = 51, lon = 0\<rparr>,
      from_loc = \<lparr>name = ''EHAM'', lat = 52, lon = 4\<rparr>, bound = Some Arrival\<rparr>"

definition flight_n123 :: Flight where
  "flight_n123 =
     \<lparr>flight_id = 4, time = 0, tail = Some ''N123'', type = ''C172'', airline = Null,
      callsign = Some ''N123'',
      to_loc = \<lparr>name = ''KJFK'', lat = 40, lon = - 73\<rparr>,
      from_loc = \<lparr>name = ''KBOS'', lat = 42, lon = - 71\<rparr>, bound = Some Arrival\<rparr>"


definition flight_baw :: Flight where
  "flight_baw =
     \<lparr>flight_id = 6, time = 0, tail = Some ''G-EUUA'', type = ''A320'', airline = Code ''BAW'',
      callsign = Some ''BAW1'',
      to_loc = \<lparr>name = ''EGLL'', lat = 51, lon = 0\<rparr>,
      from_loc = \<lparr>name = ''EHAM'', lat = 52, lon = 4\<rparr>, bound = Some Arrival\<rparr>"

definition flight_dlh :: Flight where
  "flight_dlh =
     \<lparr>flight_id = 7, time = 0, tail = Some ''D-AIBA'', type = ''A319'', airline = Code ''DLH'',
      callsign = Some ''DLH2'',
      to_loc = \<lparr>name = ''EGLL'', lat = 51, lon = 0\<rparr>,
      from_loc = \<lparr>name = ''EDDF'', lat = 50, lon = 8\<rparr>, bound = Some Arrival\<rparr>"

definition flight_afr :: Flight where
  "flight_afr =
     \<lparr>flight_id = 8, time = 0, tail = Some ''F-GKXA'', type = ''A320'', airline = Code ''AFR'',
      callsign = Some ''AFR3'',
      to_loc = \<lparr>name = ''EGLL'', lat = 51, lon = 0\<rparr>,
      from_loc = \<lparr>name = ''LFPG'', lat = 49, lon = 2\<rparr>, bound = Some Arrival\<rparr>"

text \<open>
  The selection as the specification words it, for comparison with the one of the
  source: the longest entry of the prefix list that is a case-insensitive string-prefix
  of the tail.
\<close>

definition spec_longest_prefix :: "string list \<Rightarrow> string \<Rightarrow> string option" where
  "spec_longest_prefix prefixes t =
     fold (\<lambda>p best.
             if startsWith (toUpperCase t) (toUpperCase p)
                \<and> (case best of None \<Rightarrow> True | Some b \<Rightarrow> length b < length p)
             then Some p else best)
          prefixes None"


section \<open>Invariant of the grouping loop\<close>

text \<open>
  What every entry of \<^verbatim>\<open>merged\<close> satisfies between two iterations: it has a member, and
  its airline, its set of types and its set of directions are those of its first member,
  the flight it was created for.
\<close>

definition seeded :: "(Flight \<Rightarrow> Direction) \<Rightarrow> Cluster \<Rightarrow> bool" where
  "seeded direction m =
     (m_flights m \<noteq> []
      \<and> m_airline m = airline (hd (m_flights m))
      \<and> m_type m = [type (hd (m_flights m))]
      \<and> m_direction m = [direction (hd (m_flights m))])"

section \<open>Properties of the callsign synthesis\<close>










lemma class_of_eq_iff:
  "class_of x = class_of y \<longleftrightarrow> (is_digit x = is_digit y) \<and> (\<not> is_digit x \<longrightarrow> is_AZ x = is_AZ y)"
  by (simp add: class_of_def)

lemma class_of_Other: "class_of x = Other \<longleftrightarrow> \<not> is_digit x \<and> \<not> is_AZ x"
  by (simp add: class_of_def)

lemma translit_Cons_same:
  assumes "class_of x = class_of y" and "class_of x = Other \<longrightarrow> x = y"
    and "\<And>l n. translit l n xs = translit l n ys"
  shows "translit l n (x # xs) = translit l n (y # ys)"
proof -
  from assms(1) have d: "is_digit x = is_digit y"
    and az: "\<not> is_digit x \<longrightarrow> is_AZ x = is_AZ y"
    by (simp_all add: class_of_eq_iff)
  from assms(2) have ot: "\<not> is_digit x \<and> \<not> is_AZ x \<longrightarrow> x = y"
    by (simp add: class_of_Other)
  show ?thesis
  proof (cases "is_digit x")
    case True
    with d have "is_digit y" by simp
    with True show ?thesis by (simp add: assms(3))
  next
    case False
    with d have ndy: "\<not> is_digit y" by simp
    show ?thesis
    proof (cases "is_AZ x")
      case True
      with False az have "is_AZ y" by simp
      with True False ndy show ?thesis by (simp add: assms(3))
    next
      case nl: False
      with False ot have xy: "x = y" by simp
      show ?thesis unfolding xy by (simp add: assms(3))
    qed
  qed
qed

lemma translit_same_classes:
  "list_all2 (\<lambda>x y. class_of x = class_of y \<and> (class_of x = Other \<longrightarrow> x = y)) xs ys \<Longrightarrow>
   translit l n xs = translit l n ys"
proof (induction xs ys arbitrary: l n rule: list_all2_induct)
  case Nil
  show ?case by simp
next
  case (Cons x xs y ys)
  from Cons.hyps(1) have c: "class_of x = class_of y" and o: "class_of x = Other \<longrightarrow> x = y"
    by blast+
  show ?case by (rule translit_Cons_same[OF c o]) (rule Cons.IH)
qed





text \<open>
  Claim C10. Two local parts of the same length that have, after uppercasing, the same
  character class (digit, letter, other) at every position and the same character at
  every position that is neither a digit nor a letter get the same transliteration, and
  so the same synthesised callsign under one prefix.
\<close>

theorem tailToCallsign_two_runs:
  assumes len: "length a = length b"
    and cls: "\<forall>i < length a. class_of (upper_char (a ! i)) = class_of (upper_char (b ! i))"
    and oth: "\<forall>i < length a. class_of (upper_char (a ! i)) = Other \<longrightarrow> a ! i = b ! i"
  shows "localPartFormat a = localPartFormat b
         \<and> tailToCallsign prefix a = tailToCallsign prefix b"
proof -
  have "list_all2 (\<lambda>x y. class_of x = class_of y \<and> (class_of x = Other \<longrightarrow> x = y))
          (toUpperCase a) (toUpperCase b)"
  proof (rule list_all2_all_nthI)
    show "length (toUpperCase a) = length (toUpperCase b)"
      using len by (simp add: toUpperCase_def)
  next
    fix i assume "i < length (toUpperCase a)"
    then have i: "i < length a" by (simp add: toUpperCase_def)
    with len have ib: "i < length b" by simp
    have na: "toUpperCase a ! i = upper_char (a ! i)" using i by (simp add: toUpperCase_def)
    have nb: "toUpperCase b ! i = upper_char (b ! i)" using ib by (simp add: toUpperCase_def)
    from cls i have c: "class_of (upper_char (a ! i)) = class_of (upper_char (b ! i))" by blast
    from oth i have o: "class_of (upper_char (a ! i)) = Other \<longrightarrow> a ! i = b ! i" by blast
    show "class_of (toUpperCase a ! i) = class_of (toUpperCase b ! i)
          \<and> (class_of (toUpperCase a ! i) = Other \<longrightarrow> toUpperCase a ! i = toUpperCase b ! i)"
      unfolding na nb using c o by metis
  qed
  then have "localPartFormat a = localPartFormat b"
    unfolding localPartFormat_def by (rule translit_same_classes)
  then show ?thesis by (simp add: tailToCallsign_def)
qed



theorem tailToCallsign_two_runs_witness:
  "localPartFormat ''ab-1'' = localPartFormat ''XY-7''
   \<and> tailToCallsign ''g'' ''ab-1'' = tailToCallsign ''g'' ''XY-7''"
proof (rule tailToCallsign_two_runs)
  show "length ''ab-1'' = length ''XY-7''" by simp
  show "\<forall>i<length ''ab-1''. class_of (upper_char (''ab-1'' ! i)) = class_of (upper_char (''XY-7'' ! i))"
    by (simp add: All_less_Suc2 class_of_def upper_char_def is_digit_def is_AZ_def alphabet_def lowercase_def)
  show "\<forall>i<length ''ab-1''. class_of (upper_char (''ab-1'' ! i)) = Other \<longrightarrow> ''ab-1'' ! i = ''XY-7'' ! i"
    by (simp add: All_less_Suc2 class_of_def upper_char_def is_digit_def is_AZ_def alphabet_def lowercase_def)
qed

section \<open>Properties of the compass buckets\<close>





section \<open>Properties of the record normaliser\<close>

lemmas string_fns =
  toUpperCase_def upper_char_def alphabet_def lowercase_def is_digit_def is_AZ_def is_az_def
  startsWith_def includesDash_def replaceDash_def indexOfDash_def endsWithDash_def







text \<open>
  Claim C3, as amended. For every flight that passes the opening filter (its type is not
  in the helicopter set, and its tail and airline are not both null), that has a callsign
  and an airline that is null or the marker \<^verbatim>\<open>{PVT}\<close>, and that is not handled as a
  regional registration, the normaliser sets the airline to the first three characters
  of the callsign if the callsign as it is written (upper-case letters only) is three
  letters, a digit and up to three further letters or digits, and deletes the flight
  otherwise.
\<close>

theorem airline_callsign_branch:
  assumes "toUpperCase (type flight) \<notin> helicopters"
    and "tail flight \<noteq> None \<or> airline flight \<noteq> Null"
    and "callsign flight = Some c"
    and "airline flight = Null \<or> airline flight = Code ''{PVT}''"
    and "\<forall>t. tail flight = Some t \<longrightarrow> \<not> same_registration t c"
  shows "normalise helicopters prefixes flight =
           (AirlineCallsign,
            if is_airline_callsign c then Some (flight\<lparr>airline := Code (take 3 c)\<rparr>) else None)"
proof -
  from assms have "normalise helicopters prefixes flight = callsign_rules flight"
    by (auto simp add: normalise_def split: option.splits)
  with assms(3,4) show ?thesis by (auto simp add: callsign_rules_def)
qed

theorem airline_callsign_branch_witness:
  "normalise {''H60''} [] flight_airline_callsign
     = (AirlineCallsign, Some (flight_airline_callsign\<lparr>airline := Code ''BAW''\<rparr>))
   \<and> normalise {''H60''} [] flight_lowercase = (AirlineCallsign, None)"
proof -
  have a1: "toUpperCase (type flight_airline_callsign) \<notin> {''H60''}"
    by (simp add: flight_airline_callsign_def string_fns)
  have a2: "tail flight_airline_callsign \<noteq> None \<or> airline flight_airline_callsign \<noteq> Null"
    by (simp add: flight_airline_callsign_def)
  have a3: "callsign flight_airline_callsign = Some ''BAW123''"
    by (simp add: flight_airline_callsign_def)
  have a4: "airline flight_airline_callsign = Null \<or> airline flight_airline_callsign = Code ''{PVT}''"
    by (simp add: flight_airline_callsign_def)
  have a5: "\<forall>t. tail flight_airline_callsign = Some t \<longrightarrow> \<not> same_registration t ''BAW123''"
    by (simp add: flight_airline_callsign_def same_registration_def string_fns)
  have m: "is_airline_callsign ''BAW123''"
    by (simp add: is_airline_callsign_def is_AZ_def is_digit_def)
  have b1: "toUpperCase (type flight_lowercase) \<notin> {''H60''}"
    by (simp add: flight_lowercase_def string_fns)
  have b2: "tail flight_lowercase \<noteq> None \<or> airline flight_lowercase \<noteq> Null"
    by (simp add: flight_lowercase_def)
  have b3: "callsign flight_lowercase = Some ''baw123''"
    by (simp add: flight_lowercase_def)
  have b4: "airline flight_lowercase = Null \<or> airline flight_lowercase = Code ''{PVT}''"
    by (simp add: flight_lowercase_def)
  have b5: "\<forall>t. tail flight_lowercase = Some t \<longrightarrow> \<not> same_registration t ''baw123''"
    by (simp add: flight_lowercase_def same_registration_def string_fns)
  have n: "\<not> is_airline_callsign ''baw123''"
    by (simp add: is_airline_callsign_def is_AZ_def is_digit_def)
  show ?thesis
    using airline_callsign_branch[OF a1 a2 a3 a4 a5, of "[]"] m
      airline_callsign_branch[OF b1 b2 b3 b4 b5, of "[]"] n
    by simp
qed

text \<open>
  Claim C3 as stated fails: the callsign baw123 matches the pattern when case is ignored,
  and the flight is deleted, as the pattern is matched against the callsign as written.
\<close>

theorem airline_callsign_case_counterexample:
  "callsign flight_lowercase = Some ''baw123'' \<and> airline flight_lowercase = Null
   \<and> is_airline_callsign (toUpperCase ''baw123'')
   \<and> normalise {} [] flight_lowercase = (AirlineCallsign, None)"
  by (simp add: flight_lowercase_def normalise_def same_registration_def callsign_rules_def
      is_airline_callsign_def string_fns)

lemma find_first:
  "find P xs = Some x \<Longrightarrow> \<exists>i<length xs. xs ! i = x \<and> P x \<and> (\<forall>j<i. \<not> P (xs ! j))"
  by (auto simp: find_Some_iff)

lemma find_longest:
  assumes "find P xs = Some x" and "sorted_wrt (\<lambda>a b. length b \<le> length a) xs"
    and "q \<in> set xs" and "P q"
  shows "length q \<le> length x"
proof -
  from assms(1) obtain i where i: "i < length xs" "xs ! i = x" "\<forall>j<i. \<not> P (xs ! j)"
    by (auto simp: find_Some_iff)
  from assms(3) obtain k where k: "k < length xs" "xs ! k = q" by (auto simp: in_set_conv_nth)
  with assms(4) i(3) have "\<not> k < i" by auto
  then have "k = i \<or> i < k" by auto
  then show ?thesis
  proof
    assume "k = i" with i k show ?thesis by simp
  next
    assume "i < k"
    with assms(2) k(1) have "length (xs ! k) \<le> length (xs ! i)"
      by (simp add: sorted_wrt_iff_nth_less)
    with i k show ?thesis by simp
  qed
qed

text \<open>
  Claim C5, as amended. For every flight on the branch for regional registrations whose
  tail has no dash, the normaliser selects the first entry of the prefix list, in list
  order, that is a string-prefix of the uppercased tail (the entry is compared as it is
  written); this is a longest such entry when the list is ordered by decreasing length.
  With no such entry the flight is deleted; otherwise the airline is set to the callsign
  synthesised from that entry and the rest of the uppercased tail.
\<close>

theorem regional_prefix_lookup:
  assumes "toUpperCase (type flight) \<notin> helicopters"
    and "tail flight = Some t" and "callsign flight = Some c"
    and "same_registration t c" and "\<not> includesDash t"
  shows "normalise helicopters prefixes flight =
           (Regional,
            case find (\<lambda>p. startsWith (toUpperCase t) p) prefixes of
              None \<Rightarrow> None
            | Some p \<Rightarrow>
                Some (flight\<lparr>airline :=
                  Code (tailToCallsign p (drop (length p) (toUpperCase t)))\<rparr>))
         \<and> (find (\<lambda>p. startsWith (toUpperCase t) p) prefixes = None
               \<longleftrightarrow> (\<forall>p \<in> set prefixes. \<not> startsWith (toUpperCase t) p))
         \<and> (\<forall>p. find (\<lambda>p. startsWith (toUpperCase t) p) prefixes = Some p \<longrightarrow>
               (\<exists>i<length prefixes. prefixes ! i = p \<and> startsWith (toUpperCase t) p
                  \<and> (\<forall>j<i. \<not> startsWith (toUpperCase t) (prefixes ! j))))
         \<and> (\<forall>p. find (\<lambda>p. startsWith (toUpperCase t) p) prefixes = Some p
               \<and> sorted_wrt (\<lambda>a b. length b \<le> length a) prefixes \<longrightarrow>
               (\<forall>q \<in> set prefixes. startsWith (toUpperCase t) q \<longrightarrow> length q \<le> length p))"
proof (intro conjI allI)
  from assms show "normalise helicopters prefixes flight =
           (Regional,
            case find (\<lambda>p. startsWith (toUpperCase t) p) prefixes of
              None \<Rightarrow> None
            | Some p \<Rightarrow>
                Some (flight\<lparr>airline :=
                  Code (tailToCallsign p (drop (length p) (toUpperCase t)))\<rparr>))"
    by (simp add: normalise_def regional_def split: option.splits)
  show "find (\<lambda>p. startsWith (toUpperCase t) p) prefixes = None
           \<longleftrightarrow> (\<forall>p \<in> set prefixes. \<not> startsWith (toUpperCase t) p)"
    by (auto simp: find_None_iff)
  fix p
  show "find (\<lambda>p. startsWith (toUpperCase t) p) prefixes = Some p \<longrightarrow>
           (\<exists>i<length prefixes. prefixes ! i = p \<and> startsWith (toUpperCase t) p
              \<and> (\<forall>j<i. \<not> startsWith (toUpperCase t) (prefixes ! j)))"
    using find_first[of "\<lambda>p. startsWith (toUpperCase t) p" prefixes p] by blast
  show "find (\<lambda>p. startsWith (toUpperCase t) p) prefixes = Some p
         \<and> sorted_wrt (\<lambda>a b. length b \<le> length a) prefixes \<longrightarrow>
           (\<forall>q \<in> set prefixes. startsWith (toUpperCase t) q \<longrightarrow> length q \<le> length p)"
    using find_longest[of "\<lambda>p. startsWith (toUpperCase t) p" prefixes p] by blast
qed

theorem regional_prefix_lookup_witness:
  "normalise {''H60''} [''N'', ''N1''] flight_n123
     = (Regional, Some (flight_n123\<lparr>airline := Code ''N-123''\<rparr>))
   \<and> normalise {''H60''} [''C'', ''G''] flight_n123 = (Regional, None)"
proof -
  have a1: "toUpperCase (type flight_n123) \<notin> {''H60''}"
    by (simp add: flight_n123_def string_fns)
  have a2: "tail flight_n123 = Some ''N123''" and a3: "callsign flight_n123 = Some ''N123''"
    by (simp_all add: flight_n123_def)
  have a4: "same_registration ''N123'' ''N123''" by (simp add: same_registration_def)
  have a5: "\<not> includesDash ''N123''" by (simp add: includesDash_def)
  have f1: "find (\<lambda>p. startsWith (toUpperCase ''N123'') p) [''N'', ''N1''] = Some ''N''"
    by (simp add: string_fns)
  have f2: "find (\<lambda>p. startsWith (toUpperCase ''N123'') p) [''C'', ''G''] = None"
    by (simp add: string_fns)
  have t: "tailToCallsign ''N'' (drop (length ''N'') (toUpperCase ''N123'')) = ''N-123''"
    by (simp add: tailToCallsign_def localPartFormat_def digits_def string_fns)
  have r1: "normalise {''H60''} [''N'', ''N1''] flight_n123
     = (Regional, Some (flight_n123\<lparr>airline := Code ''N-123''\<rparr>))"
    using regional_prefix_lookup[OF a1 a2 a3 a4 a5, of "[''N'', ''N1'']", THEN conjunct1]
    by (simp only: f1 option.case t)
  have r2: "normalise {''H60''} [''C'', ''G''] flight_n123 = (Regional, None)"
    using regional_prefix_lookup[OF a1 a2 a3 a4 a5, of "[''C'', ''G'']", THEN conjunct1]
    by (simp only: f2 option.case)
  from r1 r2 show ?thesis by simp
qed

text \<open>
  Claim C5 as stated fails: with the prefix list N, N1 and the tail N123 the longest
  matching prefix is N1, which would give N1-12, and the normaliser selects N and sets
  the airline to N-123.
\<close>

theorem regional_prefix_longest_counterexample:
  "tail flight_n123 = Some ''N123'' \<and> callsign flight_n123 = Some ''N123''
   \<and> spec_longest_prefix [''N'', ''N1''] ''N123'' = Some ''N1''
   \<and> tailToCallsign ''N1'' (drop (length ''N1'') (toUpperCase ''N123'')) = ''N1-12''
   \<and> normalise {} [''N'', ''N1''] flight_n123
       = (Regional, Some (flight_n123\<lparr>airline := Code ''N-123''\<rparr>))"
  by (simp add: flight_n123_def normalise_def same_registration_def regional_def
      spec_longest_prefix_def tailToCallsign_def localPartFormat_def digits_def string_fns)

section \<open>Properties of the grouping loop\<close>

lemma set_add_member: "x \<in> set xs \<Longrightarrow> set_add x xs = xs"
  by (simp add: set_add_def)

lemma absorb_belongs:
  "belongs m flight d \<Longrightarrow> absorb m flight d = m\<lparr>m_flights := m_flights m @ [flight]\<rparr>"
  by (simp add: belongs_def absorb_def set_add_member)

lemma seeded_absorb:
  assumes "seeded direction m" and "belongs m flight d"
  shows "seeded direction (absorb m flight d)"
  using assms by (simp add: absorb_belongs seeded_def)

lemma seeded_new_cluster:
  "seeded direction (new_cluster spell_numbers callsigns flight (direction flight))"
  by (simp add: seeded_def new_cluster_def)

lemma add_to_existing_invariant:
  assumes "\<And>m. P m \<Longrightarrow> belongs m flight d \<Longrightarrow> P (absorb m flight d)"
  shows "add_to_existing flight d merged = Some merged' \<Longrightarrow> \<forall>m \<in> set merged. P m \<Longrightarrow>
         \<forall>m \<in> set merged'. P m"
proof (induction merged arbitrary: merged')
  case Nil
  then show ?case by simp
next
  case (Cons m ms)
  show ?case
  proof (cases "belongs m flight d")
    case True
    with Cons.prems show ?thesis by (auto simp: assms)
  next
    case False
    with Cons.prems(1) obtain ms' where ms': "add_to_existing flight d ms = Some ms'"
      and eq: "merged' = m # ms'" by auto
    from Cons.IH[OF ms'] Cons.prems(2) have "\<forall>m \<in> set ms'. P m" by simp
    with Cons.prems(2) eq show ?thesis by simp
  qed
qed

lemma aggregate_step_invariant:
  assumes "\<And>m. P m \<Longrightarrow> belongs m flight (direction flight) \<Longrightarrow> P (absorb m flight (direction flight))"
    and "airline flight \<noteq> Undefined \<Longrightarrow> P (new_cluster spell_numbers callsigns flight (direction flight))"
    and "\<forall>m \<in> set merged. P m"
  shows "\<forall>m \<in> set (aggregate_step direction spell_numbers callsigns merged flight). P m"
proof (cases "airline flight = Undefined")
  case True
  with assms(3) show ?thesis by (simp add: aggregate_step_def)
next
  case False
  show ?thesis
  proof (cases "add_to_existing flight (direction flight) merged")
    case None
    with False assms(2,3) show ?thesis by (simp add: aggregate_step_def)
  next
    case (Some merged')
    from add_to_existing_invariant[of P flight "direction flight", OF assms(1) Some assms(3)]
    have "\<forall>m \<in> set merged'. P m" by simp
    with False Some show ?thesis by (simp add: aggregate_step_def)
  qed
qed

lemma foldl_aggregate_step_invariant:
  assumes "\<And>m flight. flight \<in> set flights \<Longrightarrow> P m \<Longrightarrow> belongs m flight (direction flight)
             \<Longrightarrow> P (absorb m flight (direction flight))"
    and "\<And>flight. flight \<in> set flights \<Longrightarrow> airline flight \<noteq> Undefined
             \<Longrightarrow> P (new_cluster spell_numbers callsigns flight (direction flight))"
  shows "\<forall>m \<in> set merged. P m \<Longrightarrow>
         \<forall>m \<in> set (foldl (aggregate_step direction spell_numbers callsigns) merged flights). P m"
  using assms
proof (induction flights arbitrary: merged)
  case Nil
  then show ?case by simp
next
  case (Cons f fs)
  have "\<forall>m \<in> set (aggregate_step direction spell_numbers callsigns merged f). P m"
    by (rule aggregate_step_invariant) (simp_all add: Cons.prems)
  then have "\<forall>m \<in> set (foldl (aggregate_step direction spell_numbers callsigns)
                 (aggregate_step direction spell_numbers callsigns merged f) fs). P m"
    by (rule Cons.IH) (simp_all add: Cons.prems)
  then show ?case by simp
qed

lemma aggregate_invariant:
  assumes "\<And>m flight. flight \<in> set flights \<Longrightarrow> P m \<Longrightarrow> belongs m flight (direction flight)
             \<Longrightarrow> P (absorb m flight (direction flight))"
    and "\<And>flight. flight \<in> set flights \<Longrightarrow> airline flight \<noteq> Undefined
             \<Longrightarrow> P (new_cluster spell_numbers callsigns flight (direction flight))"
  shows "\<forall>m \<in> set (aggregate direction spell_numbers callsigns flights). P m"
  unfolding aggregate_def
  by (rule foldl_aggregate_step_invariant[of flights P]) (simp_all add: assms)

lemma seeded_aggregate:
  "\<forall>m \<in> set (aggregate direction spell_numbers callsigns flights). seeded direction m"
  by (rule aggregate_invariant) (simp_all add: seeded_absorb seeded_new_cluster)


lemmas flight_examples =
  flight_baw_def flight_dlh_def all_north_def


lemma aggregate_three:
  "aggregate all_north unspelled [] [flight_baw, flight_dlh, flight_baw] =
     [(new_cluster unspelled [] flight_baw N)\<lparr>m_flights := [flight_baw, flight_baw]\<rparr>,
      new_cluster unspelled [] flight_dlh N]"
  by (simp add: aggregate_def aggregate_step_def belongs_def new_cluster_def absorb_def
      set_add_def flight_examples)

text \<open>
  Claim C9. After any number of iterations of the grouping loop, every entry has a member
  and its set of types and its set of directions are the singletons of the type and the
  direction of its first member, the flight it was created for. A flight joins an entry
  only when the entry holds its type and its direction already, so the two \<^verbatim>\<open>add\<close> calls
  of the join add nothing: the join only appends the flight to the members.
\<close>

theorem aggregate_singleton_sets:
  "(\<forall>k. \<forall>m \<in> set (aggregate direction spell_numbers callsigns (take k flights)).
      m_flights m \<noteq> []
      \<and> m_type m = [type (hd (m_flights m))]
      \<and> m_direction m = [direction (hd (m_flights m))])
   \<and> (\<forall>m flight d. belongs m flight d \<longrightarrow>
         set_add (type flight) (m_type m) = m_type m
         \<and> set_add d (m_direction m) = m_direction m
         \<and> absorb m flight d = m\<lparr>m_flights := m_flights m @ [flight]\<rparr>)"
proof (intro conjI allI ballI impI)
  fix k m
  assume "m \<in> set (aggregate direction spell_numbers callsigns (take k flights))"
  with seeded_aggregate[of direction spell_numbers callsigns "take k flights"]
  have s: "seeded direction m" by blast
  from s show "m_flights m \<noteq> []" by (simp add: seeded_def)
  from s show "m_type m = [type (hd (m_flights m))]" by (simp add: seeded_def)
  from s show "m_direction m = [direction (hd (m_flights m))]" by (simp add: seeded_def)
next
  fix m flight d
  assume b: "belongs m flight d"
  then show "set_add (type flight) (m_type m) = m_type m"
    by (simp add: belongs_def set_add_member)
  from b show "set_add d (m_direction m) = m_direction m"
    by (simp add: belongs_def set_add_member)
  from b show "absorb m flight d = m\<lparr>m_flights := m_flights m @ [flight]\<rparr>"
    by (rule absorb_belongs)
qed

theorem aggregate_singleton_sets_witness:
  "map m_type (aggregate all_north unspelled [] (take 3 [flight_baw, flight_dlh, flight_baw]))
     = [[''A320''], [''A319'']]
   \<and> map m_direction
       (aggregate all_north unspelled [] (take 3 [flight_baw, flight_dlh, flight_baw]))
     = [[N], [N]]
   \<and> map length (map m_flights
       (aggregate all_north unspelled [] (take 3 [flight_baw, flight_dlh, flight_baw]))) = [2, 1]"
proof -
  let ?fs = "[flight_baw, flight_dlh, flight_baw]"
  let ?c1 = "(new_cluster unspelled [] flight_baw N)\<lparr>m_flights := [flight_baw, flight_baw]\<rparr>"
  let ?c2 = "new_cluster unspelled [] flight_dlh N"
  have t: "take 3 ?fs = ?fs" by simp
  have agg: "aggregate all_north unspelled [] (take 3 ?fs) = [?c1, ?c2]"
    unfolding t by (rule aggregate_three)
  have m1: "?c1 \<in> set (aggregate all_north unspelled [] (take 3 ?fs))"
    and m2: "?c2 \<in> set (aggregate all_north unspelled [] (take 3 ?fs))"
    unfolding agg by simp_all
  note inv = aggregate_singleton_sets[of all_north unspelled "[]" ?fs,
      THEN conjunct1, THEN spec, THEN bspec]
  from inv[OF m1] have "m_type ?c1 = [type (hd (m_flights ?c1))]"
    and "m_direction ?c1 = [all_north (hd (m_flights ?c1))]" by blast+
  then have c1: "m_type ?c1 = [''A320'']" "m_direction ?c1 = [N]"
    by (simp_all add: flight_baw_def all_north_def)
  from inv[OF m2] have "m_type ?c2 = [type (hd (m_flights ?c2))]"
    and "m_direction ?c2 = [all_north (hd (m_flights ?c2))]" by blast+
  then have c2: "m_type ?c2 = [''A319'']" "m_direction ?c2 = [N]"
    by (simp_all add: new_cluster_def flight_dlh_def all_north_def)
  show ?thesis unfolding agg using c1 c2 by (simp add: new_cluster_def)
qed

section \<open>Properties of the scores\<close>









lemma score_of_hundredths: "\<exists>k::int. score_of n M = of_int k / 100"
  by (auto simp: score_of_def)

lemma calculate_score_member:
  "m \<in> set (calculate_score merged) \<Longrightarrow>
   \<exists>m0 \<in> set merged. m = m0\<lparr>m_score := Some (score_of (length (m_flights m0)) (maxFlights merged))\<rparr>"
  by (auto simp: calculate_score_def)





section \<open>Properties of the listing and of the warnings\<close>

lemma insort_key_lex:
  fixes f :: "'a \<Rightarrow> 'b::linorder" and g :: "'a \<Rightarrow> 'c::linorder"
  assumes "sorted_wrt (\<lambda>a b. f a < f b \<or> (f a = f b \<and> g a \<le> g b)) ys"
    and "\<forall>y \<in> set ys. g x \<le> g y"
  shows "sorted_wrt (\<lambda>a b. f a < f b \<or> (f a = f b \<and> g a \<le> g b)) (insort_key f x ys)"
  using assms
proof (induction ys)
  case Nil
  then show ?case by simp
next
  case (Cons y ys)
  show ?case
  proof (cases "f x \<le> f y")
    case True
    have "\<forall>z \<in> set (y # ys). f x < f z \<or> (f x = f z \<and> g x \<le> g z)"
    proof
      fix z assume z: "z \<in> set (y # ys)"
      with Cons.prems(1) have "f y \<le> f z" by auto
      with True have "f x \<le> f z" by simp
      moreover from z Cons.prems(2) have "g x \<le> g z" by auto
      ultimately show "f x < f z \<or> (f x = f z \<and> g x \<le> g z)" by auto
    qed
    with True Cons.prems(1) show ?thesis by simp
  next
    case False
    then have lt: "f y < f x" by simp
    from Cons.prems have "sorted_wrt (\<lambda>a b. f a < f b \<or> (f a = f b \<and> g a \<le> g b)) (insort_key f x ys)"
      by (intro Cons.IH) auto
    moreover have "\<forall>z \<in> set (insort_key f x ys). f y < f z \<or> (f y = f z \<and> g y \<le> g z)"
      using Cons.prems(1) lt by (auto simp: set_insort_key)
    ultimately show ?thesis using False by simp
  qed
qed

lemma sort_key_lex:
  fixes f :: "'a \<Rightarrow> 'b::linorder" and g :: "'a \<Rightarrow> 'c::linorder"
  shows "sorted (map g xs) \<Longrightarrow>
         sorted_wrt (\<lambda>a b. f a < f b \<or> (f a = f b \<and> g a \<le> g b)) (sort_key f xs)"
proof (induction xs)
  case Nil
  show ?case by simp
next
  case (Cons x xs)
  from Cons.prems have s: "sorted (map g xs)" and le: "\<forall>y \<in> set xs. g x \<le> g y" by auto
  from le have "\<forall>y \<in> set (sort_key f xs). g x \<le> g y" by simp
  with Cons.IH[OF s] show ?case by (simp add: insort_key_lex)
qed

lemma sort_sort_lex:
  fixes f :: "'a \<Rightarrow> 'b::linorder" and g :: "'a \<Rightarrow> 'c::linorder"
  shows "sorted_wrt (\<lambda>a b. f a < f b \<or> (f a = f b \<and> g a \<le> g b))
           (sort_key f (sort_key g xs))"
  by (rule sort_key_lex) (rule sorted_sort_key)

lemma callsign_rules_not_Null:
  "snd (callsign_rules flight) = Some flight' \<Longrightarrow> airline flight \<noteq> Null \<or> callsign flight \<noteq> None \<Longrightarrow>
   airline flight' \<noteq> Null"
  by (auto simp: callsign_rules_def split: option.splits if_splits)

lemma regional_not_Null:
  "snd (regional prefixes flight t) = Some flight' \<Longrightarrow> airline flight' \<noteq> Null"
  by (auto simp: regional_def split: option.splits if_splits)

lemma normalise_not_Null:
  assumes "snd (normalise helicopters prefixes flight) = Some flight'"
  shows "airline flight' \<noteq> Null"
proof -
  from assms have pass: "\<not> (airline flight = Null \<and> callsign flight = None)"
    by (auto simp: normalise_def split: if_splits)
  then have c: "airline flight \<noteq> Null \<or> callsign flight \<noteq> None" by auto
  from assms have "snd (callsign_rules flight) = Some flight'
      \<or> (\<exists>t. snd (regional prefixes flight t) = Some flight')"
    by (auto simp: normalise_def split: if_splits option.splits)
  then show ?thesis
    using callsign_rules_not_Null[OF _ c] regional_not_Null by blast
qed

lemma normalise_all_not_Null:
  "\<forall>flight \<in> set (normalise_all helicopters prefixes flights). airline flight \<noteq> Null"
proof
  fix flight assume "flight \<in> set (normalise_all helicopters prefixes flights)"
  then obtain f0 where "snd (normalise helicopters prefixes f0) = Some flight"
    by (auto simp: normalise_all_def map_filter_def)
  then show "airline flight \<noteq> Null" by (rule normalise_not_Null)
qed

lemma coded_aggregate:
  assumes "\<forall>flight \<in> set flights. airline flight \<noteq> Null"
  shows "\<forall>m \<in> set (aggregate direction spell_numbers callsigns flights). \<exists>s. m_airline m = Code s"
proof (rule aggregate_invariant)
  fix m :: Cluster and flight
  assume "\<exists>s. m_airline m = Code s"
  then show "\<exists>s. m_airline (absorb m flight (direction flight)) = Code s"
    by (simp add: absorb_def)
next
  fix flight
  assume "flight \<in> set flights" and "airline flight \<noteq> Undefined"
  with assms have "airline flight \<noteq> Null" "airline flight \<noteq> Undefined" by simp_all
  then show "\<exists>s. m_airline (new_cluster spell_numbers callsigns flight (direction flight)) = Code s"
    by (cases "airline flight") (simp_all add: new_cluster_def)
qed

lemma coded_pipeline:
  "\<forall>m \<in> set (calculate_score (aggregate direction spell_numbers callsigns
                  (normalise_all helicopters prefixes flights))).
     \<exists>s. m_airline m = Code s"
proof
  fix m
  assume "m \<in> set (calculate_score (aggregate direction spell_numbers callsigns
                  (normalise_all helicopters prefixes flights)))"
  from calculate_score_member[OF this] obtain m0
    where m0: "m0 \<in> set (aggregate direction spell_numbers callsigns
                  (normalise_all helicopters prefixes flights))"
      and a: "m_airline m = m_airline m0" by auto
  from coded_aggregate[OF normalise_all_not_Null] m0 a
  show "\<exists>s. m_airline m = Code s" by auto
qed

lemma listed_coded:
  assumes "\<forall>m \<in> set merged. \<exists>s. m_airline m = Code s"
  shows "listed collate merged =
           Inr (sort_key by_score
                  (sort_key (\<lambda>m. collate (airline_text (m_airline m)))
                     (filter (\<lambda>m. score_ge m (5 / 1000)) merged)))"
proof -
  have "\<not> list_ex (\<lambda>m. case m_airline m of Code s \<Rightarrow> False | _ \<Rightarrow> True)
           (filter (\<lambda>m. score_ge m (5 / 1000)) merged)"
    using assms by (auto simp: list_ex_iff)
  then show ?thesis by (simp add: listed_def Let_def)
qed

lemma kept_scores:
  "m \<in> set (filter (\<lambda>m. score_ge m (5 / 1000)) merged) \<longleftrightarrow>
   m \<in> set merged \<and> (\<exists>s. m_score m = Some s \<and> 5 / 1000 \<le> s)"
  by (auto simp: score_ge_def split: option.splits)

text \<open>
  Claim C2. The listing that \<^verbatim>\<open>gen\<close> writes has one line for each entry whose score is
  at least 0.005 and for no other entry, in the order of the two stable sorts: by score,
  larger first, and among entries of one score by airline code, smaller first. No entry
  reaches the comparator with an airline that is not a string, so the listing is written.
\<close>

theorem final_listing_order:
  "let merged = calculate_score (aggregate direction spell_numbers callsigns
                  (normalise_all helicopters prefixes flights));
       kept = filter (\<lambda>m. score_ge m (5 / 1000)) merged;
       entries = sort_key by_score (sort_key (\<lambda>m. collate (airline_text (m_airline m))) kept)
   in final_listing collate merged = Inr (map (entry_line collate) entries)
      \<and> mset entries = mset kept
      \<and> (\<forall>m. m \<in> set entries \<longleftrightarrow> m \<in> set merged \<and> (\<exists>s. m_score m = Some s \<and> 5 / 1000 \<le> s))
      \<and> sorted_wrt
           (\<lambda>a b. \<exists>sa sb. m_score a = Some sa \<and> m_score b = Some sb
                     \<and> (sb < sa
                        \<or> (sa = sb \<and> collate (airline_text (m_airline a))
                                       \<le> collate (airline_text (m_airline b)))))
           entries
      \<and> length (map (entry_line collate) entries) = length kept"
proof -
  let ?merged = "calculate_score (aggregate direction spell_numbers callsigns
                  (normalise_all helicopters prefixes flights))"
  let ?kept = "filter (\<lambda>m. score_ge m (5 / 1000)) ?merged"
  let ?key = "\<lambda>m. collate (airline_text (m_airline m))"
  let ?entries = "sort_key by_score (sort_key ?key ?kept)"
  have l: "listed collate ?merged = Inr ?entries"
    by (rule listed_coded) (rule coded_pipeline)
  then have 1: "final_listing collate ?merged = Inr (map (entry_line collate) ?entries)"
    by (simp add: final_listing_def)
  have 2: "mset ?entries = mset ?kept" by simp
  have s: "set ?entries = set ?kept" by simp
  have 3: "\<forall>m. m \<in> set ?entries \<longleftrightarrow> m \<in> set ?merged \<and> (\<exists>s. m_score m = Some s \<and> 5 / 1000 \<le> s)"
    unfolding s by (simp only: kept_scores) simp
  have lex: "sorted_wrt (\<lambda>a b. by_score a < by_score b \<or> (by_score a = by_score b \<and> ?key a \<le> ?key b))
               ?entries"
    by (rule sort_sort_lex)
  have 4: "sorted_wrt
           (\<lambda>a b. \<exists>sa sb. m_score a = Some sa \<and> m_score b = Some sb
                     \<and> (sb < sa \<or> (sa = sb \<and> ?key a \<le> ?key b)))
           ?entries"
  proof (rule sorted_wrt_mono_rel[OF _ lex])
    fix a b
    assume "a \<in> set ?entries" and "b \<in> set ?entries"
      and r: "by_score a < by_score b \<or> (by_score a = by_score b \<and> ?key a \<le> ?key b)"
    with 3 obtain sa sb where sa: "m_score a = Some sa" and sb: "m_score b = Some sb" by blast
    from r sa sb have "sb < sa \<or> (sa = sb \<and> ?key a \<le> ?key b)"
      by (auto simp: by_score_def)
    with sa sb show "\<exists>sa sb. m_score a = Some sa \<and> m_score b = Some sb
                     \<and> (sb < sa \<or> (sa = sb \<and> ?key a \<le> ?key b))" by blast
  qed
  have 5: "length (map (entry_line collate) ?entries) = length ?kept" by simp
  from 1 2 3 4 5 show ?thesis unfolding Let_def by blast
qed

theorem final_listing_order_witness:
  "final_listing code_units (calculate_score (aggregate all_north unspelled []
      (normalise_all {} [] [flight_dlh, flight_baw, flight_afr, flight_baw])))
   = Inr [[CHR 0x09] @ ''BAW, 10.00, a320, Bravo Alpha Whisky, n'',
          [CHR 0x09] @ ''AFR, 5.00, a320, Alpha Foxtrot Romeo, n'',
          [CHR 0x09] @ ''DLH, 5.00, a319, Delta Lima Hotel, n'']"
proof -
  let ?merged = "calculate_score (aggregate all_north unspelled []
      (normalise_all {} [] [flight_dlh, flight_baw, flight_afr, flight_baw]))"
  let ?entries = "sort_key by_score
      (sort_key (\<lambda>m. code_units (airline_text (m_airline m))) (filter (\<lambda>m. score_ge m (5 / 1000)) ?merged))"
  from final_listing_order[where collate = code_units and direction = all_north
      and spell_numbers = unspelled and callsigns = "[]" and helicopters = "{}"
      and prefixes = "[]" and flights = "[flight_dlh, flight_baw, flight_afr, flight_baw]"]
  have "final_listing code_units ?merged = Inr (map (entry_line code_units) ?entries)"
    unfolding Let_def by (rule conjunct1)
  also have "Inr (map (entry_line code_units) ?entries) =
     (Inr [[CHR 0x09] @ ''BAW, 10.00, a320, Bravo Alpha Whisky, n'',
          [CHR 0x09] @ ''AFR, 5.00, a320, Alpha Foxtrot Romeo, n'',
          [CHR 0x09] @ ''DLH, 5.00, a319, Delta Lima Hotel, n''] :: error + string list)"
    by code_simp
  finally show ?thesis .
qed

lemma warns_iff:
  "warns callsigns m \<longleftrightarrow>
     (\<exists>p s. m_pronunciation m = Some p \<and> m_score m = Some s \<and> 5 / 1000 \<le> s
            \<and> \<not> airline_endsWithDash (m_airline m) \<and> p \<notin> snd ` set callsigns)"
  by (auto simp: warns_def score_ge_def split: option.splits)

lemma warns_prior_never:
  assumes "m \<in> set (calculate_score merged)"
  shows "\<not> warns_prior callsigns m"
proof -
  from calculate_score_member[OF assms] obtain n M where sc: "m_score m = Some (score_of n M)"
    by auto
  obtain k :: int where k: "score_of n M = of_int k / 100"
    using score_of_hundredths by blast
  have "\<not> (0 < score_of n M \<and> score_of n M \<le> 5 / 1000)"
  proof
    assume a: "0 < score_of n M \<and> score_of n M \<le> 5 / 1000"
    then have "(0::rat) < of_int k" and "(of_int k :: rat) \<le> 1 / 2"
      unfolding k by simp_all
    then have "0 < k" and "(of_int k :: rat) < of_int 1" by simp_all
    then have "0 < k" and "k < 1" by (simp_all only: of_int_less_iff)
    then show False by simp
  qed
  with sc show ?thesis by (auto simp: warns_prior_def split: option.splits)
qed

text \<open>
  Claim C6, as amended. A warning is written for an entry if and only if its
  pronunciation is not null, its score is at least 0.005 (so the entry is one of the
  listing), its airline code does not end in a dash, and its pronunciation is not among
  the values of the pronunciation dictionary. The warnings are what \<^verbatim>\<open>gen\<close> writes to the
  error channel; the listing it writes to the output is the one of the scored entries,
  whatever is warned.
\<close>

theorem warning_condition:
  "(warns callsigns m \<longleftrightarrow>
      (\<exists>p s. m_pronunciation m = Some p \<and> m_score m = Some s \<and> 5 / 1000 \<le> s
             \<and> \<not> airline_endsWithDash (m_airline m) \<and> p \<notin> snd ` set callsigns))
   \<and> (let merged = calculate_score (aggregate direction spell_numbers callsigns
                       (normalise_all helicopters prefixes flights));
          out = gen helicopters prefixes direction spell_numbers callsigns collate flights
      in stderr out = map warning_line (filter (warns callsigns) merged)
         \<and> stdout out = map_sum (\<lambda>e. e) stdout_text (final_listing collate merged)
         \<and> (\<forall>m \<in> set merged. warns callsigns m \<longrightarrow> score_ge m (5 / 1000)))"
proof -
  have "\<forall>m. warns callsigns m \<longrightarrow> score_ge m (5 / 1000)"
    by (auto simp: warns_def split: option.splits)
  then show ?thesis
    unfolding Let_def by (simp add: warns_iff gen_def Let_def warnings_def)
qed

theorem warning_condition_witness:
  "warns [] (hd (calculate_score (aggregate all_north unspelled []
         (normalise_all {} [] [flight_baw]))))
   \<and> \<not> warns [(''BAW'', ''Bravo Alpha Whisky'')] (hd (calculate_score (aggregate all_north unspelled []
         (normalise_all {} [] [flight_baw]))))"
proof -
  let ?m = "hd (calculate_score (aggregate all_north unspelled []
         (normalise_all {} [] [flight_baw])))"
  have p: "m_pronunciation ?m = Some ''Bravo Alpha Whisky''" by code_simp
  have s: "m_score ?m = Some 10" by code_simp
  have d: "\<not> airline_endsWithDash (m_airline ?m)" by code_simp
  have "\<exists>p s. m_pronunciation ?m = Some p \<and> m_score ?m = Some s \<and> 5 / 1000 \<le> s
             \<and> \<not> airline_endsWithDash (m_airline ?m) \<and> p \<notin> snd ` set []"
    using p s d by simp
  with warning_condition[where callsigns = "[]" and m = ?m, THEN conjunct1] have w: "warns [] ?m" by (rule iffD2)
  have "\<not> (\<exists>p s. m_pronunciation ?m = Some p \<and> m_score ?m = Some s \<and> 5 / 1000 \<le> s
             \<and> \<not> airline_endsWithDash (m_airline ?m)
             \<and> p \<notin> snd ` set [(''BAW'', ''Bravo Alpha Whisky'')])"
    using p by simp
  with warning_condition[where callsigns = "[(''BAW'', ''Bravo Alpha Whisky'')]" and m = ?m, THEN conjunct1]
  have n: "\<not> warns [(''BAW'', ''Bravo Alpha Whisky'')] ?m" by blast
  from w n show ?thesis by simp
qed

text \<open>
  Claim C6 as stated fails: for a single flight of an airline that the dictionary does
  not hold, a warning is written for its entry, whose score is 10 and so not in the
  interval from 0 to 0.005.
\<close>

theorem warning_interval_counterexample:
  "stderr (gen {} [] all_north unspelled [] code_units [flight_baw])
     = [''WARNING! BAW: no pronunciation available'' @ [CHR 0x0A]]
   \<and> map m_score (calculate_score (aggregate all_north unspelled []
         (normalise_all {} [] [flight_baw]))) = [Some 10]
   \<and> \<not> (0 < (10::rat) \<and> (10::rat) \<le> 5 / 1000)"
  by code_simp

end
